theory Spec2Isabelle
  imports Main
begin

section \<open>Auto Temp Cleaner: the data model of \<^verbatim>\<open>src/main.ts\<close>\<close>

text \<open>
  The plugin's settings object (\<^verbatim>\<open>interface AutoTempCleanerSettings\<close>). The field the
  specification calls \<^verbatim>\<open>ttlMinutes\<close> is spelled \<^verbatim>\<open>ttlMinites\<close> in the source, and the
  source's spelling is kept. The numbers are integers: the settings tab stores only the
  results of \<^verbatim>\<open>parseInt\<close>, and the host's timestamps are epoch milliseconds.
\<close>

record AutoTempCleanerSettings =
  targetFolder :: string
  ttlMinites :: int
  checkInterval :: int
  confirmed :: bool

text \<open>
  What \<^verbatim>\<open>loadData()\<close> resolves to: the persisted object, any of whose keys may be
  missing. No data file at all is \<open>None\<close> (the host resolves \<^verbatim>\<open>null\<close>).
\<close>

record PersistedData =
  savedTargetFolder :: "string option"
  savedTtlMinites :: "int option"
  savedCheckInterval :: "int option"
  savedConfirmed :: "bool option"

text \<open>
  The objects of the host's file tree: a \<^verbatim>\<open>TAbstractFile\<close> is a \<^verbatim>\<open>TFile\<close> (path,
  extension, \<^verbatim>\<open>stat.ctime\<close>) or a \<^verbatim>\<open>TFolder\<close> (path). A file object never changes.
  A folder object has a \<^verbatim>\<open>children\<close> array that the host changes as files come and go;
  the arrays are kept in the host's state, under the folder's path.
\<close>

datatype TAbstractFile =
    TFile string string int
  | TFolder string

fun path :: "TAbstractFile \<Rightarrow> string" where
  "path (TFile p ext ct) = p"
| "path (TFolder p) = p"

datatype error = TrashFailed string

text \<open>
  The host as the plugin sees it. The plugin reads the vault's index by path
  (\<open>fileMap\<close>), the \<^verbatim>\<open>children\<close> array of a folder (\<open>children\<close>, by the folder's path),
  the clock and the persisted data; its effects on the host are the notices it shows,
  the files it hands to \<^verbatim>\<open>fileManager.trashFile\<close> and the interval timers it registers
  on \<^verbatim>\<open>window\<close>. \<open>trashed\<close> lists the files handed to the host's trash primitive, in
  order: that primitive is the only write access to the vault the plugin has.
  \<open>trashRejects\<close> says for which files the host rejects the promise of
  \<^verbatim>\<open>trashFile\<close>. \<open>timers\<close> holds the active interval timers as pairs of
  identifier and period in milliseconds; every timer of this plugin has the callback
  \<^verbatim>\<open>() => this.runCleanUp()\<close>.

  The host's code is not part of the plugin, and how it takes a trashed file out of its
  folder is left open by \<open>removesInPlace\<close>: a host either removes the file from the
  folder's \<^verbatim>\<open>children\<close> array itself, so that a loop walking that array sees it shrink,
  or gives the folder a new array without the file and leaves the old one as it was.
\<close>

record host =
  normalizePath :: "string \<Rightarrow> string"
  fileMap :: "string \<Rightarrow> TAbstractFile option"
  children :: "string \<Rightarrow> TAbstractFile list"
  removesInPlace :: bool
  clock :: int
  trashRejects :: "TAbstractFile \<Rightarrow> bool"
  trashed :: "TAbstractFile list"
  notices :: "string list"
  timers :: "(nat \<times> int) list"
  nextTimer :: nat
  dataFile :: "PersistedData option"

text \<open>The plugin object: \<^verbatim>\<open>settings\<close> and \<^verbatim>\<open>intervalId: number | null\<close>.\<close>

record AutoTempCleanerPlugin =
  settings :: AutoTempCleanerSettings
  intervalId :: "nat option"

section \<open>The host's primitives\<close>

text \<open>\<^verbatim>\<open>new Notice(text)\<close>: the notice is shown.\<close>

definition Notice :: "string \<Rightarrow> host \<Rightarrow> host" where
  "Notice txt h = h\<lparr>notices := notices h @ [txt]\<rparr>"

text \<open>\<^verbatim>\<open>this.app.vault.getAbstractFileByPath(p)\<close>: the entry or \<^verbatim>\<open>null\<close>.\<close>

definition getAbstractFileByPath :: "host \<Rightarrow> string \<Rightarrow> TAbstractFile option" where
  "getAbstractFileByPath h p = fileMap h p"

text \<open>
  Modelled from the spec: the host's \<^verbatim>\<open>fileManager.trashFile\<close>, which is not in the
  plugin's source. The specification has the file deleted (moved to trash) and a second
  sweep find nothing left to delete: when the promise of
  \<^verbatim>\<open>await this.app.fileManager.trashFile(file)\<close> is fulfilled the file has left the
  vault's index and the \<^verbatim>\<open>children\<close> of its folder. Otherwise the promise is rejected
  and the vault is as it was.
\<close>

definition trashFile :: "TAbstractFile \<Rightarrow> host \<Rightarrow> error + host" where
  "trashFile file h =
     (if trashRejects h file then Inl (TrashFailed (path file))
      else Inr (h\<lparr>trashed := trashed h @ [file],
                  fileMap := (fileMap h)(path file := None),
                  children := (\<lambda>q. removeAll file (children h q))\<rparr>))"

text \<open>
  The array that \<^verbatim>\<open>for (const file of folder.children)\<close> walks, for the folder with path
  \<open>q\<close>: the iterator holds the array the folder had when the loop started. On a host
  that removes in place this is still the folder's array, as it is now; on the other
  hosts it is the array as it was then.
\<close>

definition loopArray :: "host \<Rightarrow> string \<Rightarrow> TAbstractFile list \<Rightarrow> TAbstractFile list" where
  "loopArray h q atStart = (if removesInPlace h then children h q else atStart)"

text \<open>\<^verbatim>\<open>Date.now()\<close>.\<close>

definition Date_now :: "host \<Rightarrow> int" where
  "Date_now h = clock h"

text \<open>
  \<^verbatim>\<open>window.setInterval(callback, ms)\<close> registers a repeating timer and returns its
  identifier; \<^verbatim>\<open>clearInterval(id)\<close> cancels it.
\<close>

definition setInterval :: "int \<Rightarrow> host \<Rightarrow> nat \<times> host" where
  "setInterval ms h =
     (nextTimer h, h\<lparr>timers := timers h @ [(nextTimer h, ms)], nextTimer := Suc (nextTimer h)\<rparr>)"

definition clearInterval :: "nat \<Rightarrow> host \<Rightarrow> host" where
  "clearInterval i h = h\<lparr>timers := filter (\<lambda>t. fst t \<noteq> i) (timers h)\<rparr>"

text \<open>\<^verbatim>\<open>this.loadData()\<close>.\<close>

definition loadData :: "host \<Rightarrow> PersistedData option" where
  "loadData h = dataFile h"

text \<open>\<^verbatim>\<open>Array.prototype.join\<close> on an array of strings.\<close>

fun join :: "string \<Rightarrow> string list \<Rightarrow> string" where
  "join sep [] = []"
| "join sep [x] = x"
| "join sep (x # y # ys) = x @ sep @ join sep (y # ys)"

text \<open>
  A number in a template literal: the decimal digits of an integer, with a minus sign
  when it is negative.
\<close>

definition digitChar :: "nat \<Rightarrow> char" where
  "digitChar d = ''0123456789'' ! d"

function decimal :: "nat \<Rightarrow> string" where
  "decimal n = (if n < 10 then [digitChar n] else decimal (n div 10) @ [digitChar (n mod 10)])"
  by pat_completeness auto
termination
  by (relation "measure (\<lambda>n. n)") auto

definition numberToString :: "int \<Rightarrow> string" where
  "numberToString i = (if i < 0 then ''-'' @ decimal (nat (- i)) else decimal (nat i))"

section \<open>The plugin\<close>

definition DEFAULT_SETTINGS :: AutoTempCleanerSettings where
  "DEFAULT_SETTINGS =
     \<lparr>targetFolder = ''tmp'', ttlMinites = 1440, checkInterval = 0, confirmed = False\<rparr>"

definition toMilliSec :: "int \<Rightarrow> int" where
  "toMilliSec minitues = minitues * 60000"

text \<open>
  The body of the loop of \<^verbatim>\<open>runCleanUp\<close> for one child: the error of a rejected
  \<^verbatim>\<open>trashFile\<close>, or \<^verbatim>\<open>delFiles\<close> and the host afterwards.
\<close>

fun loopBody ::
  "int \<Rightarrow> int \<Rightarrow> TAbstractFile \<Rightarrow> string list \<Rightarrow> host \<Rightarrow> error + string list \<times> host"
where
  "loopBody now ttlMillis (TFolder p) delFiles h = Inr (delFiles, h)"
| "loopBody now ttlMillis (TFile p ext ct) delFiles h =
     (if ext = ''md'' then
        (if now - ct > ttlMillis then
           (case trashFile (TFile p ext ct) h of
              Inl e \<Rightarrow> Inl e
            | Inr h' \<Rightarrow> Inr (delFiles @ [p], h'))
         else Inr (delFiles, h))
      else Inr (delFiles, h))"

text \<open>
  The loop of \<^verbatim>\<open>runCleanUp\<close> over \<^verbatim>\<open>folder.children\<close>: the iterator of the array
  keeps a position \<open>i\<close> and stops when the position is no longer inside the array. A
  rejected \<^verbatim>\<open>trashFile\<close> leaves the loop with the error; the files trashed before it
  stay trashed. \<^verbatim>\<open>now\<close> is read once, before the loop.
\<close>

function cleanLoop ::
  "int \<Rightarrow> int \<Rightarrow> string \<Rightarrow> TAbstractFile list \<Rightarrow> nat \<Rightarrow> string list \<Rightarrow> host
     \<Rightarrow> error option \<times> string list \<times> host"
where
  "cleanLoop now ttlMillis q atStart i delFiles h =
     (if i < length (loopArray h q atStart) then
        (case loopBody now ttlMillis (loopArray h q atStart ! i) delFiles h of
           Inl e \<Rightarrow> (Some e, delFiles, h)
         | Inr (delFiles', h') \<Rightarrow> cleanLoop now ttlMillis q atStart (Suc i) delFiles' h')
      else (None, delFiles, h))"
  by pat_completeness auto
termination
proof (relation "measure (\<lambda>(now, ttlMillis, q, atStart, i, delFiles, h). length (loopArray h q atStart) - i)")
  show "wf (measure (\<lambda>(now, ttlMillis, q, atStart, i, delFiles, h). length (loopArray h q atStart) - i))"
    by simp
next
  fix now ttlMillis :: int and q :: string and atStart :: "TAbstractFile list" and i :: nat
    and delFiles delFiles' :: "string list" and h h' :: host and r :: "string list \<times> host"
  assume inside: "i < length (loopArray h q atStart)"
    and body: "loopBody now ttlMillis (loopArray h q atStart ! i) delFiles h = Inr r"
    and r: "(delFiles', h') = r"
  have "length (loopArray h' q atStart) \<le> length (loopArray h q atStart)"
  proof (cases "loopArray h q atStart ! i")
    case (TFolder p)
    with body r show ?thesis by auto
  next
    case (TFile p ext ct)
    with body r have "h' = h \<or>
        h' = h\<lparr>trashed := trashed h @ [TFile p ext ct],
               fileMap := (fileMap h)(path (TFile p ext ct) := None),
               children := (\<lambda>q. removeAll (TFile p ext ct) (children h q))\<rparr>"
      by (auto simp: trashFile_def split: if_splits)
    then show ?thesis
      by (auto simp: loopArray_def)
  qed
  with inside show "((now, ttlMillis, q, atStart, Suc i, delFiles', h'),
                     (now, ttlMillis, q, atStart, i, delFiles, h))
      \<in> measure (\<lambda>(now, ttlMillis, q, atStart, i, delFiles, h). length (loopArray h q atStart) - i)"
    by simp
qed

declare cleanLoop.simps [simp del]

text \<open>
  \<^verbatim>\<open>async runCleanUp()\<close>. The result is the error the returned promise is rejected
  with, if any, and the host afterwards.
\<close>

definition runCleanUp :: "AutoTempCleanerPlugin \<Rightarrow> host \<Rightarrow> error option \<times> host" where
  "runCleanUp this h =
     (if checkInterval (settings this) = 0 then (None, h)
      else if \<not> confirmed (settings this) then
        (None, Notice ''This plugin automatically deletes files in the specified folder.\<newline>Please check the settings.'' h)
      else
        (let folderPath = normalizePath h (targetFolder (settings this));
             folder = getAbstractFileByPath h folderPath
         in case folder of
              Some (TFolder q) \<Rightarrow>
                (let now = Date_now h;
                     ttlMillis = toMilliSec (ttlMinites (settings this))
                 in case cleanLoop now ttlMillis q (children h q) 0 [] h of
                      (Some e, delFiles, h') \<Rightarrow> (Some e, h')
                    | (None, delFiles, h') \<Rightarrow>
                        (None,
                         if length delFiles > 0
                         then Notice (''Deleted files: \<newline>'' @ join ''\<newline>'' delFiles) h'
                         else h'))
            | Some (TFile p ext ct) \<Rightarrow> (None, h)
            | None \<Rightarrow> (None, h)))"

text \<open>
  \<^verbatim>\<open>startInterval()\<close>. The call of \<^verbatim>\<open>this.runCleanUp()\<close> is not awaited: an error
  of the sweep rejects a promise nobody holds, and the method goes on.
\<close>

definition startInterval :: "AutoTempCleanerPlugin \<Rightarrow> host \<Rightarrow> AutoTempCleanerPlugin \<times> host" where
  "startInterval this h =
     (let h1 = (if checkInterval (settings this) = 0
                then Notice ''Auto Temp Cleaner has been stopped.'' h
                else Notice (''Run Auto Temp Cleaner every ''
                             @ numberToString (checkInterval (settings this)) @ '' minutes.'') h);
          h2 = snd (runCleanUp this h1);
          intervalMs = toMilliSec (checkInterval (settings this));
          (i, h3) = setInterval intervalMs h2
      in (this\<lparr>intervalId := Some i\<rparr>, h3))"

text \<open>\<^verbatim>\<open>onunload()\<close>: the timer, if one is held, is cancelled and forgotten.\<close>

definition onunload :: "AutoTempCleanerPlugin \<Rightarrow> host \<Rightarrow> AutoTempCleanerPlugin \<times> host" where
  "onunload this h =
     (case intervalId this of
        Some i \<Rightarrow> (this\<lparr>intervalId := None\<rparr>, clearInterval i h)
      | None \<Rightarrow> (this, h))"

text \<open>
  \<^verbatim>\<open>Object.assign({}, target, source)\<close> on settings objects: a key of the source
  overwrites the target's, a missing key leaves it, and a \<^verbatim>\<open>null\<close> source is skipped.
\<close>

definition Object_assign ::
  "AutoTempCleanerSettings \<Rightarrow> PersistedData option \<Rightarrow> AutoTempCleanerSettings"
where
  "Object_assign target source =
     (case source of
        None \<Rightarrow> target
      | Some d \<Rightarrow>
          \<lparr>targetFolder = (case savedTargetFolder d of None \<Rightarrow> targetFolder target | Some v \<Rightarrow> v),
           ttlMinites = (case savedTtlMinites d of None \<Rightarrow> ttlMinites target | Some v \<Rightarrow> v),
           checkInterval = (case savedCheckInterval d of None \<Rightarrow> checkInterval target | Some v \<Rightarrow> v),
           confirmed = (case savedConfirmed d of None \<Rightarrow> confirmed target | Some v \<Rightarrow> v)\<rparr>)"

definition loadSettings :: "AutoTempCleanerPlugin \<Rightarrow> host \<Rightarrow> AutoTempCleanerPlugin" where
  "loadSettings this h = this\<lparr>settings := Object_assign DEFAULT_SETTINGS (loadData h)\<rparr>"

section \<open>Observations used in the statements\<close>

text \<open>
  The files a run handed to the host's trash: what the log \<open>trashed\<close> of the host
  afterwards holds beyond the log of the host before.
\<close>

definition newlyTrashed :: "host \<Rightarrow> host \<Rightarrow> TAbstractFile list" where
  "newlyTrashed h h' = drop (length (trashed h)) (trashed h')"

text \<open>
  The host after the files \<open>ds\<close> have gone to the trash one after the other: the log
  has grown by them, the index has lost their paths and every \<^verbatim>\<open>children\<close> array has
  lost them and nothing else.
\<close>

definition afterTrash :: "TAbstractFile list \<Rightarrow> host \<Rightarrow> host" where
  "afterTrash ds h =
     h\<lparr>trashed := trashed h @ ds,
       fileMap := (\<lambda>k. if k \<in> path ` set ds then None else fileMap h k),
       children := (\<lambda>s. filter (\<lambda>c. c \<notin> set ds) (children h s))\<rparr>"

text \<open>The two nested tests of the loop body of \<^verbatim>\<open>runCleanUp\<close>, as one predicate.\<close>

fun expired :: "int \<Rightarrow> int \<Rightarrow> TAbstractFile \<Rightarrow> bool" where
  "expired now ttlMillis (TFile p ext ct) = (ext = ''md'' \<and> now - ct > ttlMillis)"
| "expired now ttlMillis (TFolder p) = False"

section \<open>Vaults to run the plugin on\<close>

text \<open>
  The clock reads 10000000. The folder \<^verbatim>\<open>tmp\<close> holds a text file older than an hour,
  a note half an hour old, a note older than an hour, a note exactly an hour old, a
  subfolder with an old note in it, and another note older than an hour. The host trashes whatever it is
  given, and removes it from the folder's array in place.
\<close>

definition exampleChildren :: "TAbstractFile list" where
  "exampleChildren =
     [TFile ''tmp/c.txt'' ''txt'' 2800000,
      TFile ''tmp/b.md'' ''md'' 8200000,
      TFile ''tmp/a.md'' ''md'' 2800000,
      TFile ''tmp/d.md'' ''md'' 6400000,
      TFolder ''tmp/sub'',
      TFile ''tmp/f.md'' ''md'' 5000]"

definition exampleHost :: host where
  "exampleHost =
     \<lparr>normalizePath = (\<lambda>p. p),
      fileMap = [''tmp'' \<mapsto> TFolder ''tmp'',
                 ''tmp/b.md'' \<mapsto> TFile ''tmp/b.md'' ''md'' 8200000,
                 ''tmp/a.md'' \<mapsto> TFile ''tmp/a.md'' ''md'' 2800000,
                 ''tmp/c.txt'' \<mapsto> TFile ''tmp/c.txt'' ''txt'' 2800000,
                 ''tmp/d.md'' \<mapsto> TFile ''tmp/d.md'' ''md'' 6400000,
                 ''tmp/sub'' \<mapsto> TFolder ''tmp/sub'',
                 ''tmp/sub/e.md'' \<mapsto> TFile ''tmp/sub/e.md'' ''md'' 1000,
                 ''tmp/f.md'' \<mapsto> TFile ''tmp/f.md'' ''md'' 5000,
                 ''note.md'' \<mapsto> TFile ''note.md'' ''md'' 1000],
      children = (\<lambda>q. [])(''tmp'' := exampleChildren,
                               ''tmp/sub'' := [TFile ''tmp/sub/e.md'' ''md'' 1000]),
      removesInPlace = True,
      clock = 10000000,
      trashRejects = (\<lambda>f. False),
      trashed = [],
      notices = [],
      timers = [],
      nextTimer = 0,
      dataFile = None\<rparr>"

definition exampleSettings :: AutoTempCleanerSettings where
  "exampleSettings =
     \<lparr>targetFolder = ''tmp'', ttlMinites = 60, checkInterval = 10, confirmed = True\<rparr>"

definition examplePlugin :: AutoTempCleanerPlugin where
  "examplePlugin = \<lparr>settings = exampleSettings, intervalId = None\<rparr>"

text \<open>
  A second vault, on the same kind of host: \<^verbatim>\<open>tmp\<close> holds three notes, all older than
  an hour, next to each other.
\<close>

definition crowdedHost :: host where
  "crowdedHost =
     \<lparr>normalizePath = (\<lambda>p. p),
      fileMap = [''tmp'' \<mapsto> TFolder ''tmp'',
                 ''tmp/a.md'' \<mapsto> TFile ''tmp/a.md'' ''md'' 2800000,
                 ''tmp/f.md'' \<mapsto> TFile ''tmp/f.md'' ''md'' 5000,
                 ''tmp/g.md'' \<mapsto> TFile ''tmp/g.md'' ''md'' 1000],
      children = (\<lambda>q. [])(''tmp'' := [TFile ''tmp/a.md'' ''md'' 2800000,
                                        TFile ''tmp/f.md'' ''md'' 5000,
                                        TFile ''tmp/g.md'' ''md'' 1000]),
      removesInPlace = True,
      clock = 10000000,
      trashRejects = (\<lambda>f. False),
      trashed = [],
      notices = [],
      timers = [],
      nextTimer = 0,
      dataFile = None\<rparr>"

section \<open>The host's trash\<close>

lemma afterTrash_Nil: "afterTrash [] h = h"
  by (simp add: afterTrash_def)

lemma afterTrash_Cons: "afterTrash ds (afterTrash [f] h) = afterTrash (f # ds) h"
  by (rule host.equality) (auto simp: afterTrash_def fun_eq_iff intro: filter_cong)

lemma trashFile_eq:
  "trashFile f h = (if trashRejects h f then Inl (TrashFailed (path f)) else Inr (afterTrash [f] h))"
proof -
  have "h\<lparr>trashed := trashed h @ [f], fileMap := (fileMap h)(path f := None),
          children := (\<lambda>q. removeAll f (children h q))\<rparr> = afterTrash [f] h"
    by (rule host.equality)
       (auto simp: afterTrash_def fun_eq_iff removeAll_filter_not_eq intro: filter_cong)
  then show ?thesis
    by (simp add: trashFile_def)
qed

lemma loopArray_afterTrash:
  "set (loopArray (afterTrash ds h) q atStart) \<subseteq> set (loopArray h q atStart)"
  by (auto simp: loopArray_def afterTrash_def)

section \<open>The loop\<close>

text \<open>What one pass through the loop body does to \<^verbatim>\<open>delFiles\<close> and the host.\<close>

lemma loopBody_Inl:
  "loopBody now ttl f del h = Inl e \<Longrightarrow> expired now ttl f \<and> trashRejects h f"
  by (cases f) (auto simp: trashFile_eq split: if_splits)

lemma loopBody_Inr:
  "loopBody now ttl f del h = Inr (del', h') \<Longrightarrow>
     (\<not> expired now ttl f \<and> del' = del \<and> h' = h)
   \<or> (expired now ttl f \<and> \<not> trashRejects h f \<and> del' = del @ [path f] \<and> h' = afterTrash [f] h)"
  by (cases f) (auto simp: trashFile_eq split: if_splits)

lemma loopBody_expired:
  "expired now ttl f \<Longrightarrow> \<not> trashRejects h f \<Longrightarrow>
   loopBody now ttl f del h = Inr (del @ [path f], afterTrash [f] h)"
  by (cases f) (auto simp: trashFile_eq)

lemma expired_iff:
  "expired now ttl c \<longleftrightarrow> (\<exists>p ct. c = TFile p ''md'' ct \<and> now - ct > ttl)"
  by (cases c) auto

text \<open>
  On every host, whether the loop ends or is left by an error: the host afterwards is the
  host before with some files trashed, their paths are what \<^verbatim>\<open>delFiles\<close> has gained, and
  each of them was in the array and passed the test.
\<close>

lemma cleanLoop_any:
  "cleanLoop now ttl q atStart i del h = (r, del', h') \<Longrightarrow>
   \<exists>ds. h' = afterTrash ds h \<and> del' = del @ map path ds
      \<and> (\<forall>f \<in> set ds. f \<in> set (loopArray h q atStart) \<and> expired now ttl f)"
proof (induction now ttl q atStart i del h rule: cleanLoop.induct)
  case (1 now ttl q atStart i del h)
  let ?arr = "loopArray h q atStart"
  show ?case
  proof (cases "i < length ?arr")
    case False
    with "1.prems" have "h' = h" "del' = del"
      by (simp_all add: cleanLoop.simps [of now ttl q atStart i del h])
    then show ?thesis
      by (intro exI [of _ "[]"]) (simp add: afterTrash_Nil)
  next
    case inside: True
    show ?thesis
    proof (cases "loopBody now ttl (?arr ! i) del h")
      case (Inl e)
      with inside "1.prems" have "h' = h" "del' = del"
        by (simp_all add: cleanLoop.simps [of now ttl q atStart i del h])
      then show ?thesis
        by (intro exI [of _ "[]"]) (simp add: afterTrash_Nil)
    next
      case (Inr res)
      obtain d1 h1 where res: "res = (d1, h1)" by (cases res)
      with Inr inside "1.prems" have rest: "cleanLoop now ttl q atStart (Suc i) d1 h1 = (r, del', h')"
        by (simp add: cleanLoop.simps [of now ttl q atStart i del h])
      from "1.IH" [OF inside Inr res [symmetric] rest] obtain ds where
        ds: "h' = afterTrash ds h1" "del' = d1 @ map path ds"
            "\<forall>f \<in> set ds. f \<in> set (loopArray h1 q atStart) \<and> expired now ttl f"
        by blast
      from Inr res loopBody_Inr [of now ttl "?arr ! i" del h d1 h1]
      consider (keep) "d1 = del" "h1 = h"
        | (trash) "expired now ttl (?arr ! i)" "d1 = del @ [path (?arr ! i)]" "h1 = afterTrash [?arr ! i] h"
        by auto
      then show ?thesis
      proof cases
        case keep
        with ds show ?thesis by blast
      next
        case trash
        from inside have mem: "?arr ! i \<in> set ?arr" by simp
        from ds(3) trash(3) loopArray_afterTrash [of "[?arr ! i]" h q atStart]
        have "\<forall>f \<in> set ds. f \<in> set ?arr \<and> expired now ttl f" by blast
        with mem trash(1) have "\<forall>f \<in> set (?arr ! i # ds). f \<in> set ?arr \<and> expired now ttl f"
          by simp
        moreover from ds(1) trash(3) have "h' = afterTrash (?arr ! i # ds) h"
          by (simp add: afterTrash_Cons)
        moreover from ds(2) trash(2) have "del' = del @ map path (?arr ! i # ds)"
          by simp
        ultimately show ?thesis by blast
      qed
    qed
  qed
qed


text \<open>If the host rejects none of the files of the array, the loop ends without an error.\<close>

lemma cleanLoop_completes:
  "\<forall>c \<in> set (loopArray h q atStart). \<not> trashRejects h c \<Longrightarrow>
   fst (cleanLoop now ttl q atStart i del h) = None"
proof (induction now ttl q atStart i del h rule: cleanLoop.induct)
  case (1 now ttl q atStart i del h)
  let ?arr = "loopArray h q atStart"
  show ?case
  proof (cases "i < length ?arr")
    case False
    then show ?thesis
      by (simp add: cleanLoop.simps [of now ttl q atStart i del h])
  next
    case inside: True
    with "1.prems" have acc: "\<not> trashRejects h (?arr ! i)" by simp
    show ?thesis
    proof (cases "loopBody now ttl (?arr ! i) del h")
      case (Inl e)
      with acc loopBody_Inl show ?thesis by blast
    next
      case (Inr res)
      obtain d1 h1 where res: "res = (d1, h1)" by (cases res)
      with Inr loopBody_Inr [of now ttl "?arr ! i" del h d1 h1]
      have "h1 = h \<or> h1 = afterTrash [?arr ! i] h" by blast
      then have "trashRejects h1 = trashRejects h"
        "set (loopArray h1 q atStart) \<subseteq> set ?arr"
        using loopArray_afterTrash [of "[?arr ! i]" h q atStart]
        by (auto simp: afterTrash_def)
      with "1.prems" have "\<forall>c \<in> set (loopArray h1 q atStart). \<not> trashRejects h1 c"
        by auto
      from "1.IH" [OF inside Inr res [symmetric] this] Inr res inside show ?thesis
        by (simp add: cleanLoop.simps [of now ttl q atStart i del h])
    qed
  qed
qed

section \<open>The sweep\<close>

lemmas example_defs = exampleChildren_def exampleHost_def exampleSettings_def examplePlugin_def
lemmas run_defs = runCleanUp_def getAbstractFileByPath_def Date_now_def toMilliSec_def
  cleanLoop.simps loopArray_def trashFile_def Notice_def Let_def

lemma runCleanUp_folder:
  assumes "checkInterval (settings this) \<noteq> 0" and "confirmed (settings this)"
    and "getAbstractFileByPath h (normalizePath h (targetFolder (settings this))) = Some (TFolder q)"
    and "cleanLoop (clock h) (ttlMinites (settings this) * 60000) q (children h q) 0 [] h = (r, del, h')"
  shows "runCleanUp this h =
     (case r of
        Some e \<Rightarrow> (Some e, h')
      | None \<Rightarrow> (None, if del = [] then h'
                       else Notice (''Deleted files: \<newline>'' @ join ''\<newline>'' del) h'))"
  using assms
  by (simp add: runCleanUp_def Date_now_def toMilliSec_def Let_def split: option.splits)

lemma runCleanUp_any:
  "\<exists>ds ns. snd (runCleanUp this h) = (afterTrash ds h)\<lparr>notices := notices h @ ns\<rparr>
     \<and> (\<forall>f \<in> set ds. \<exists>q p ct.
           getAbstractFileByPath h (normalizePath h (targetFolder (settings this))) = Some (TFolder q)
           \<and> f \<in> set (children h q) \<and> f = TFile p ''md'' ct
           \<and> clock h - ct > ttlMinites (settings this) * 60000)"
proof -
  let ?look = "getAbstractFileByPath h (normalizePath h (targetFolder (settings this)))"
  have quiet: ?thesis if "snd (runCleanUp this h) = h\<lparr>notices := notices h @ ns\<rparr>" for ns
    using that by (intro exI [of _ "[]"] exI [of _ ns]) (simp add: afterTrash_Nil)
  consider (off) "checkInterval (settings this) = 0"
    | (unconf) "checkInterval (settings this) \<noteq> 0" "\<not> confirmed (settings this)"
    | (nofolder) "checkInterval (settings this) \<noteq> 0" "confirmed (settings this)"
        "?look = None \<or> (\<exists>p ext ct. ?look = Some (TFile p ext ct))"
    | (folder) q where "checkInterval (settings this) \<noteq> 0" "confirmed (settings this)"
        "?look = Some (TFolder q)"
    by (cases ?look; cases "the ?look") auto
  then show ?thesis
  proof cases
    case off
    then show ?thesis
      by (intro quiet [of "[]"]) (simp add: runCleanUp_def)
  next
    case unconf
    then show ?thesis
      by (intro quiet [of "[''This plugin automatically deletes files in the specified folder.\<newline>Please check the settings.'']"])
         (simp add: runCleanUp_def Notice_def)
  next
    case nofolder
    then show ?thesis
      by (intro quiet [of "[]"]) (auto simp: runCleanUp_def Let_def)
  next
    case folder
    let ?now = "clock h" and ?ttl = "ttlMinites (settings this) * 60000"
    obtain r del h' where run: "cleanLoop ?now ?ttl q (children h q) 0 [] h = (r, del, h')"
      by (cases "cleanLoop ?now ?ttl q (children h q) 0 [] h") auto
    from cleanLoop_any [OF run] obtain ds where
      ds: "h' = afterTrash ds h"
        "\<forall>f \<in> set ds. f \<in> set (loopArray h q (children h q)) \<and> expired ?now ?ttl f"
      by blast
    from ds(2) folder(3) have mem: "\<forall>f \<in> set ds. \<exists>q p ct. ?look = Some (TFolder q)
        \<and> f \<in> set (children h q) \<and> f = TFile p ''md'' ct \<and> ?now - ct > ?ttl"
      by (auto simp: loopArray_def expired_iff)
    have "\<exists>ns. snd (runCleanUp this h) = (afterTrash ds h)\<lparr>notices := notices h @ ns\<rparr>"
    proof (cases "r = None \<and> del \<noteq> []")
      case True
      with runCleanUp_folder [OF folder run] ds(1)
      have "snd (runCleanUp this h) =
          (afterTrash ds h)\<lparr>notices := notices h @ [''Deleted files: \<newline>'' @ join ''\<newline>'' del]\<rparr>"
        by (simp add: Notice_def afterTrash_def)
      then show ?thesis by blast
    next
      case False
      with runCleanUp_folder [OF folder run] ds(1)
      have "snd (runCleanUp this h) = (afterTrash ds h)\<lparr>notices := notices h @ []\<rparr>"
        by (cases r) (auto simp: afterTrash_def)
      then show ?thesis by blast
    qed
    with mem show ?thesis by blast
  qed
qed

lemma runCleanUp_done:
  assumes ci: "checkInterval (settings this) \<noteq> 0"
    and co: "confirmed (settings this)"
    and fo: "getAbstractFileByPath h (normalizePath h (targetFolder (settings this))) = Some (TFolder q)"
    and ok: "fst (runCleanUp this h) = None"
  shows "\<exists>ds. snd (runCleanUp this h) =
           (afterTrash ds h)\<lparr>notices := notices h @
              (if ds = [] then [] else [''Deleted files: \<newline>'' @ join ''\<newline>'' (map path ds)])\<rparr>"
proof -
  let ?now = "clock h" and ?ttl = "ttlMinites (settings this) * 60000"
  obtain r del h' where run: "cleanLoop ?now ?ttl q (children h q) 0 [] h = (r, del, h')"
    by (cases "cleanLoop ?now ?ttl q (children h q) 0 [] h") auto
  from cleanLoop_any [OF run] obtain ds where ds: "h' = afterTrash ds h" "del = map path ds"
    by auto
  from runCleanUp_folder [OF ci co fo run] ok have "r = None"
    by (cases r) auto
  with runCleanUp_folder [OF ci co fo run] ds
  have "snd (runCleanUp this h) =
           (afterTrash ds h)\<lparr>notices := notices h @
              (if ds = [] then [] else [''Deleted files: \<newline>'' @ join ''\<newline>'' (map path ds)])\<rparr>"
    by (simp add: Notice_def afterTrash_def)
  then show ?thesis ..
qed

lemma newlyTrashed_afterTrash:
  "snd r = (afterTrash ds h)\<lparr>notices := ns\<rparr> \<Longrightarrow> newlyTrashed h (snd r) = ds"
  by (simp add: newlyTrashed_def afterTrash_def)

text \<open>
  The sweep ends without an error whenever the host rejects none of the children of the
  target folder.
\<close>

lemma runCleanUp_completes:
  assumes "getAbstractFileByPath h (normalizePath h (targetFolder (settings this))) = Some (TFolder q)"
    and "\<forall>c \<in> set (children h q). \<not> trashRejects h c"
  shows "fst (runCleanUp this h) = None"
proof -
  let ?now = "clock h" and ?ttl = "ttlMinites (settings this) * 60000"
  from assms(2) have "\<forall>c \<in> set (loopArray h q (children h q)). \<not> trashRejects h c"
    by (simp add: loopArray_def)
  from cleanLoop_completes [OF this, of ?now ?ttl 0 "[]"] assms(1) show ?thesis
    by (auto simp: runCleanUp_def Date_now_def toMilliSec_def Let_def split: prod.splits option.splits)
qed

lemma runCleanUp_timers:
  "timers (snd (runCleanUp this h)) = timers h \<and> nextTimer (snd (runCleanUp this h)) = nextTimer h"
proof -
  obtain ds ns where "snd (runCleanUp this h) = (afterTrash ds h)\<lparr>notices := notices h @ ns\<rparr>"
    using runCleanUp_any [of this h] by blast
  then show ?thesis by (simp add: afterTrash_def)
qed


text \<open>
  The scenario of the specification, extended: of the children of \<^verbatim>\<open>tmp\<close> only the two
  notes older than an hour are trashed; the note exactly an hour old, the younger note,
  the text file and the subfolder with its note stay.
\<close>

lemma sweep_example:
  "fst (runCleanUp examplePlugin exampleHost) = None"
  "trashed (snd (runCleanUp examplePlugin exampleHost))
     = [TFile ''tmp/a.md'' ''md'' 2800000, TFile ''tmp/f.md'' ''md'' 5000]"
  "notices (snd (runCleanUp examplePlugin exampleHost))
     = [''Deleted files: \<newline>tmp/a.md\<newline>tmp/f.md'']"
  "children (snd (runCleanUp examplePlugin exampleHost)) ''tmp''
     = [TFile ''tmp/c.txt'' ''txt'' 2800000, TFile ''tmp/b.md'' ''md'' 8200000,
        TFile ''tmp/d.md'' ''md'' 6400000, TFolder ''tmp/sub'']"
  "children (snd (runCleanUp examplePlugin exampleHost)) ''tmp/sub''
     = [TFile ''tmp/sub/e.md'' ''md'' 1000]"
  by (simp_all add: run_defs example_defs)

text \<open>
  A second sweep right after the first finds the trashed files gone: on the first vault
  it trashes nothing; on the second vault it trashes the note that the first sweep
  skipped.
\<close>

lemma second_sweep_example:
  "newlyTrashed (snd (runCleanUp examplePlugin exampleHost))
     (snd (runCleanUp examplePlugin (snd (runCleanUp examplePlugin exampleHost)))) = []"
  "newlyTrashed (snd (runCleanUp examplePlugin crowdedHost))
     (snd (runCleanUp examplePlugin (snd (runCleanUp examplePlugin crowdedHost))))
     = [TFile ''tmp/f.md'' ''md'' 5000]"
  by (simp_all add: run_defs newlyTrashed_def example_defs crowdedHost_def)

text \<open>
  C1: when \<open>checkInterval\<close> is 0 the sweep returns at once, with no error, and leaves
  the host as it was: no file is trashed and no notice shown, whatever the other
  settings and the folder hold.
\<close>

theorem runCleanUp_interval_zero:
  "checkInterval (settings this) = 0 \<Longrightarrow> runCleanUp this h = (None, h)"
  by (simp add: runCleanUp_def)

theorem runCleanUp_interval_zero_witness:
  "checkInterval (settings (examplePlugin\<lparr>settings := exampleSettings\<lparr>checkInterval := 0\<rparr>\<rparr>)) = 0
   \<and> runCleanUp (examplePlugin\<lparr>settings := exampleSettings\<lparr>checkInterval := 0\<rparr>\<rparr>) exampleHost
       = (None, exampleHost)"
proof -
  have z: "checkInterval (settings (examplePlugin\<lparr>settings := exampleSettings\<lparr>checkInterval := 0\<rparr>\<rparr>)) = 0"
    by simp
  from z runCleanUp_interval_zero [OF z] show ?thesis by simp
qed

text \<open>
  C2: when \<open>checkInterval\<close> is not 0 (in particular when it is positive) and
  \<open>confirmed\<close> is false, the sweep shows the warning and returns; the host is otherwise
  as it was, and no file is trashed.
\<close>

theorem runCleanUp_unconfirmed:
  assumes "checkInterval (settings this) \<noteq> 0" and "\<not> confirmed (settings this)"
  shows "runCleanUp this h =
           (None, h\<lparr>notices := notices h @
              [''This plugin automatically deletes files in the specified folder.\<newline>Please check the settings.'']\<rparr>)
         \<and> newlyTrashed h (snd (runCleanUp this h)) = []"
  using assms by (simp add: runCleanUp_def Notice_def newlyTrashed_def)

theorem runCleanUp_unconfirmed_witness:
  "checkInterval (settings (examplePlugin\<lparr>settings := exampleSettings\<lparr>confirmed := False\<rparr>\<rparr>)) \<noteq> 0
   \<and> \<not> confirmed (settings (examplePlugin\<lparr>settings := exampleSettings\<lparr>confirmed := False\<rparr>\<rparr>))
   \<and> runCleanUp (examplePlugin\<lparr>settings := exampleSettings\<lparr>confirmed := False\<rparr>\<rparr>) exampleHost =
       (None, exampleHost\<lparr>notices :=
          [''This plugin automatically deletes files in the specified folder.\<newline>Please check the settings.'']\<rparr>)"
proof -
  let ?p = "examplePlugin\<lparr>settings := exampleSettings\<lparr>confirmed := False\<rparr>\<rparr>"
  have a: "checkInterval (settings ?p) \<noteq> 0" by (simp add: exampleSettings_def)
  have b: "\<not> confirmed (settings ?p)" by simp
  from a b runCleanUp_unconfirmed [OF a b, of exampleHost] show ?thesis
    by (simp add: exampleHost_def)
qed

text \<open>
  C4: the sweep is to trash a child of the target folder if and only if it is a file with
  extension \<^verbatim>\<open>md\<close> and \<open>now - ctime > ttlMinites * 60000\<close>. Run on the second vault,
  past both guards and with no error, it does not: on this host a trashed file leaves the
  array that the loop is walking, and the loop never looks at the child that follows.
  Of three notes older than the time to live the sweep trashes the first and the third;
  the second, \<^verbatim>\<open>tmp/f.md\<close>, is still in the folder afterwards.
\<close>

theorem runCleanUp_skips_after_trash:
  "checkInterval (settings examplePlugin) \<noteq> 0
   \<and> confirmed (settings examplePlugin)
   \<and> getAbstractFileByPath crowdedHost (normalizePath crowdedHost (targetFolder (settings examplePlugin)))
       = Some (TFolder ''tmp'')
   \<and> children crowdedHost ''tmp''
       = [TFile ''tmp/a.md'' ''md'' 2800000, TFile ''tmp/f.md'' ''md'' 5000, TFile ''tmp/g.md'' ''md'' 1000]
   \<and> clock crowdedHost - 5000 > ttlMinites (settings examplePlugin) * 60000
   \<and> fst (runCleanUp examplePlugin crowdedHost) = None
   \<and> newlyTrashed crowdedHost (snd (runCleanUp examplePlugin crowdedHost))
       = [TFile ''tmp/a.md'' ''md'' 2800000, TFile ''tmp/g.md'' ''md'' 1000]
   \<and> children (snd (runCleanUp examplePlugin crowdedHost)) ''tmp'' = [TFile ''tmp/f.md'' ''md'' 5000]"
  by (simp add: run_defs newlyTrashed_def crowdedHost_def examplePlugin_def exampleSettings_def)

text \<open>
  C5: whatever the settings and the ages, and on every host, a sweep trashes no file whose
  extension is not \<^verbatim>\<open>md\<close>, no folder, and nothing that is not a child of the target
  folder itself. Every \<^verbatim>\<open>children\<close> array of the vault afterwards is the array before
  without the trashed files, and the index has lost the paths of the trashed files only:
  the other files, those in subfolders among them, are where and as they were.
\<close>

theorem runCleanUp_spares_others:
  assumes "getAbstractFileByPath h (normalizePath h (targetFolder (settings this))) = Some (TFolder q)"
  shows "(ext \<noteq> ''md'' \<longrightarrow> TFile p ext ct \<notin> set (newlyTrashed h (snd (runCleanUp this h))))
       \<and> TFolder s \<notin> set (newlyTrashed h (snd (runCleanUp this h)))
       \<and> (g \<notin> set (children h q) \<longrightarrow> g \<notin> set (newlyTrashed h (snd (runCleanUp this h))))
       \<and> children (snd (runCleanUp this h)) s
           = filter (\<lambda>c. c \<notin> set (newlyTrashed h (snd (runCleanUp this h)))) (children h s)
       \<and> fileMap (snd (runCleanUp this h)) k
           = (if k \<in> path ` set (newlyTrashed h (snd (runCleanUp this h))) then None else fileMap h k)"
proof -
  obtain ds ns where
    s: "snd (runCleanUp this h) = (afterTrash ds h)\<lparr>notices := notices h @ ns\<rparr>"
    and m: "\<forall>f \<in> set ds. \<exists>q p ct.
           getAbstractFileByPath h (normalizePath h (targetFolder (settings this))) = Some (TFolder q)
           \<and> f \<in> set (children h q) \<and> f = TFile p ''md'' ct
           \<and> clock h - ct > ttlMinites (settings this) * 60000"
    using runCleanUp_any [of this h] by blast
  from s have n: "newlyTrashed h (snd (runCleanUp this h)) = ds"
    by (rule newlyTrashed_afterTrash)
  from m assms have only: "\<forall>f \<in> set ds. f \<in> set (children h q) \<and> (\<exists>p ct. f = TFile p ''md'' ct)"
    by fastforce
  from only have "ext \<noteq> ''md'' \<longrightarrow> TFile p ext ct \<notin> set ds" by auto
  moreover from only have "TFolder s \<notin> set ds" by auto
  moreover from only have "g \<notin> set (children h q) \<longrightarrow> g \<notin> set ds" by auto
  moreover from s have "children (snd (runCleanUp this h)) s = filter (\<lambda>c. c \<notin> set ds) (children h s)"
    by (simp add: afterTrash_def)
  moreover from s have "fileMap (snd (runCleanUp this h)) k
      = (if k \<in> path ` set ds then None else fileMap h k)"
    by (simp add: afterTrash_def)
  ultimately show ?thesis
    unfolding n by blast
qed

theorem runCleanUp_spares_others_witness:
  "getAbstractFileByPath exampleHost (normalizePath exampleHost (targetFolder (settings examplePlugin)))
       = Some (TFolder ''tmp'')
   \<and> ''txt'' \<noteq> ''md''
   \<and> TFile ''tmp/c.txt'' ''txt'' 2800000 \<in> set (children exampleHost ''tmp'')
   \<and> TFile ''tmp/c.txt'' ''txt'' 2800000 \<notin> set (newlyTrashed exampleHost (snd (runCleanUp examplePlugin exampleHost)))
   \<and> TFolder ''tmp/sub'' \<in> set (children exampleHost ''tmp'')
   \<and> TFolder ''tmp/sub'' \<notin> set (newlyTrashed exampleHost (snd (runCleanUp examplePlugin exampleHost)))
   \<and> TFile ''tmp/sub/e.md'' ''md'' 1000 \<in> set (children exampleHost ''tmp/sub'')
   \<and> TFile ''tmp/sub/e.md'' ''md'' 1000 \<notin> set (children exampleHost ''tmp'')
   \<and> TFile ''tmp/sub/e.md'' ''md'' 1000 \<notin> set (newlyTrashed exampleHost (snd (runCleanUp examplePlugin exampleHost)))
   \<and> children (snd (runCleanUp examplePlugin exampleHost)) ''tmp/sub'' = children exampleHost ''tmp/sub''
   \<and> fileMap (snd (runCleanUp examplePlugin exampleHost)) ''tmp/sub/e.md''
       = Some (TFile ''tmp/sub/e.md'' ''md'' 1000)"
proof -
  let ?T = "newlyTrashed exampleHost (snd (runCleanUp examplePlugin exampleHost))"
  have a: "getAbstractFileByPath exampleHost (normalizePath exampleHost (targetFolder (settings examplePlugin)))
       = Some (TFolder ''tmp'')"
    by (simp add: example_defs getAbstractFileByPath_def)
  have b: "''txt'' \<noteq> ''md''" by simp
  have c: "TFile ''tmp/sub/e.md'' ''md'' 1000 \<notin> set (children exampleHost ''tmp'')"
    "TFile ''tmp/c.txt'' ''txt'' 2800000 \<in> set (children exampleHost ''tmp'')"
    "TFolder ''tmp/sub'' \<in> set (children exampleHost ''tmp'')"
    "TFile ''tmp/sub/e.md'' ''md'' 1000 \<in> set (children exampleHost ''tmp/sub'')"
    by (simp_all add: example_defs)
  have T: "?T = [TFile ''tmp/a.md'' ''md'' 2800000, TFile ''tmp/f.md'' ''md'' 5000]"
    by (simp add: newlyTrashed_def sweep_example) (simp add: exampleHost_def)
  have e: "fileMap exampleHost ''tmp/sub/e.md'' = Some (TFile ''tmp/sub/e.md'' ''md'' 1000)"
    "children exampleHost ''tmp/sub'' = [TFile ''tmp/sub/e.md'' ''md'' 1000]"
    by (simp_all add: exampleHost_def)
  note spares = runCleanUp_spares_others [OF a, where ext = "''txt''" and p = "''tmp/c.txt''"
      and ct = 2800000 and s = "''tmp/sub''" and g = "TFile ''tmp/sub/e.md'' ''md'' 1000"
      and k = "''tmp/sub/e.md''"]
  from spares b c(1)
  have "TFile ''tmp/c.txt'' ''txt'' 2800000 \<notin> set ?T" "TFolder ''tmp/sub'' \<notin> set ?T"
    "TFile ''tmp/sub/e.md'' ''md'' 1000 \<notin> set ?T"
    by blast+
  moreover from spares have "children (snd (runCleanUp examplePlugin exampleHost)) ''tmp/sub''
      = filter (\<lambda>c. c \<notin> set ?T) (children exampleHost ''tmp/sub'')"
    "fileMap (snd (runCleanUp examplePlugin exampleHost)) ''tmp/sub/e.md''
      = (if ''tmp/sub/e.md'' \<in> path ` set ?T then None else fileMap exampleHost ''tmp/sub/e.md'')"
    by blast+
  then have "children (snd (runCleanUp examplePlugin exampleHost)) ''tmp/sub'' = children exampleHost ''tmp/sub''"
    "fileMap (snd (runCleanUp examplePlugin exampleHost)) ''tmp/sub/e.md''
       = Some (TFile ''tmp/sub/e.md'' ''md'' 1000)"
    unfolding T e by simp_all
  ultimately show ?thesis using a b c by blast
qed

text \<open>
  C6: when the normalized target path names no entry of the vault, or names a file, the
  sweep returns without an error and trashes nothing; with confirmed settings it leaves
  the host as it was, with no notice.
\<close>

theorem runCleanUp_no_folder:
  assumes "getAbstractFileByPath h (normalizePath h (targetFolder (settings this))) = None
         \<or> (\<exists>q ext ct. getAbstractFileByPath h (normalizePath h (targetFolder (settings this)))
                         = Some (TFile q ext ct))"
  shows "fst (runCleanUp this h) = None
       \<and> newlyTrashed h (snd (runCleanUp this h)) = []
       \<and> (confirmed (settings this) \<longrightarrow> snd (runCleanUp this h) = h)"
  using assms by (auto simp: runCleanUp_def Let_def Notice_def newlyTrashed_def)

theorem runCleanUp_no_folder_witness:
  "getAbstractFileByPath exampleHost
      (normalizePath exampleHost (targetFolder (settings (examplePlugin\<lparr>settings := exampleSettings\<lparr>targetFolder := ''note.md''\<rparr>\<rparr>))))
     = Some (TFile ''note.md'' ''md'' 1000)
   \<and> confirmed (settings (examplePlugin\<lparr>settings := exampleSettings\<lparr>targetFolder := ''note.md''\<rparr>\<rparr>))
   \<and> runCleanUp (examplePlugin\<lparr>settings := exampleSettings\<lparr>targetFolder := ''note.md''\<rparr>\<rparr>) exampleHost
       = (None, exampleHost)"
proof -
  let ?p = "examplePlugin\<lparr>settings := exampleSettings\<lparr>targetFolder := ''note.md''\<rparr>\<rparr>"
  have a: "getAbstractFileByPath exampleHost (normalizePath exampleHost (targetFolder (settings ?p)))
     = Some (TFile ''note.md'' ''md'' 1000)"
    by (simp add: example_defs getAbstractFileByPath_def)
  have b: "confirmed (settings ?p)" by (simp add: exampleSettings_def)
  from a have "getAbstractFileByPath exampleHost (normalizePath exampleHost (targetFolder (settings ?p))) = None
         \<or> (\<exists>q ext ct. getAbstractFileByPath exampleHost (normalizePath exampleHost (targetFolder (settings ?p)))
                         = Some (TFile q ext ct))"
    by blast
  from runCleanUp_no_folder [OF this] b
  have "fst (runCleanUp ?p exampleHost) = None" "snd (runCleanUp ?p exampleHost) = exampleHost"
    by blast+
  then have "runCleanUp ?p exampleHost = (None, exampleHost)"
    by (metis prod.collapse)
  with a b show ?thesis by blast
qed

text \<open>
  C7: a sweep that reaches the end of the loop shows one notice, \<^verbatim>\<open>Deleted files:\<close>
  followed by the trashed paths joined by newlines, when it trashed a file, and no
  notice when it trashed none.
\<close>

theorem runCleanUp_summary_notice:
  assumes "checkInterval (settings this) \<noteq> 0"
    and "confirmed (settings this)"
    and "getAbstractFileByPath h (normalizePath h (targetFolder (settings this))) = Some (TFolder q)"
    and "fst (runCleanUp this h) = None"
  shows "notices (snd (runCleanUp this h)) =
           notices h @
           (if newlyTrashed h (snd (runCleanUp this h)) = [] then []
            else [''Deleted files: \<newline>''
                  @ join ''\<newline>'' (map path (newlyTrashed h (snd (runCleanUp this h))))])"
proof -
  from runCleanUp_done [OF assms] obtain ds where
    s: "snd (runCleanUp this h) =
           (afterTrash ds h)\<lparr>notices := notices h @
              (if ds = [] then [] else [''Deleted files: \<newline>'' @ join ''\<newline>'' (map path ds)])\<rparr>"
    by blast
  from s have n: "newlyTrashed h (snd (runCleanUp this h)) = ds"
    by (rule newlyTrashed_afterTrash)
  show ?thesis
    unfolding n by (simp add: s)
qed

theorem runCleanUp_summary_notice_witness:
  "checkInterval (settings examplePlugin) \<noteq> 0
   \<and> confirmed (settings examplePlugin)
   \<and> getAbstractFileByPath exampleHost (normalizePath exampleHost (targetFolder (settings examplePlugin)))
       = Some (TFolder ''tmp'')
   \<and> fst (runCleanUp examplePlugin exampleHost) = None
   \<and> newlyTrashed exampleHost (snd (runCleanUp examplePlugin exampleHost))
       = [TFile ''tmp/a.md'' ''md'' 2800000, TFile ''tmp/f.md'' ''md'' 5000]
   \<and> notices (snd (runCleanUp examplePlugin exampleHost))
       = notices exampleHost @ [''Deleted files: \<newline>tmp/a.md\<newline>tmp/f.md'']"
proof -
  have a: "checkInterval (settings examplePlugin) \<noteq> 0" "confirmed (settings examplePlugin)"
    by (simp_all add: example_defs)
  have b: "getAbstractFileByPath exampleHost (normalizePath exampleHost (targetFolder (settings examplePlugin)))
       = Some (TFolder ''tmp'')"
    by (simp add: example_defs getAbstractFileByPath_def)
  have c: "fst (runCleanUp examplePlugin exampleHost) = None"
    by (simp add: sweep_example)
  have d: "newlyTrashed exampleHost (snd (runCleanUp examplePlugin exampleHost))
       = [TFile ''tmp/a.md'' ''md'' 2800000, TFile ''tmp/f.md'' ''md'' 5000]"
    by (simp add: newlyTrashed_def sweep_example) (simp add: exampleHost_def)
  from runCleanUp_summary_notice [OF a b c] d
  have "notices (snd (runCleanUp examplePlugin exampleHost))
       = notices exampleHost @ [''Deleted files: \<newline>tmp/a.md\<newline>tmp/f.md'']"
    by simp
  with a b c d show ?thesis by blast
qed

text \<open>
  C8: \<^verbatim>\<open>loadSettings\<close> sets every field to the persisted value when the persisted data
  has the key, and to the default (\<^verbatim>\<open>tmp\<close>, 1440, 0, false) when the key, or the data
  as a whole, is missing.
\<close>

theorem loadSettings_merges:
  "settings (loadSettings this h) =
     \<lparr>targetFolder = (case Option.bind (loadData h) savedTargetFolder of None \<Rightarrow> ''tmp'' | Some v \<Rightarrow> v),
      ttlMinites = (case Option.bind (loadData h) savedTtlMinites of None \<Rightarrow> 1440 | Some v \<Rightarrow> v),
      checkInterval = (case Option.bind (loadData h) savedCheckInterval of None \<Rightarrow> 0 | Some v \<Rightarrow> v),
      confirmed = (case Option.bind (loadData h) savedConfirmed of None \<Rightarrow> False | Some v \<Rightarrow> v)\<rparr>"
  by (simp add: loadSettings_def Object_assign_def DEFAULT_SETTINGS_def split: option.splits)

text \<open>
  C9: the test of \<open>checkInterval\<close> comes first: with \<open>checkInterval\<close> 0 and
  \<open>confirmed\<close> false the sweep shows no notice, so the warning for unconfirmed
  settings needs a \<open>checkInterval\<close> other than 0.
\<close>

theorem runCleanUp_zero_unconfirmed_silent:
  assumes "checkInterval (settings this) = 0" and "\<not> confirmed (settings this)"
  shows "notices (snd (runCleanUp this h)) = notices h"
  using assms by (simp add: runCleanUp_def)

theorem runCleanUp_zero_unconfirmed_silent_witness:
  "checkInterval (settings \<lparr>settings = DEFAULT_SETTINGS, intervalId = None\<rparr>) = 0
   \<and> \<not> confirmed (settings \<lparr>settings = DEFAULT_SETTINGS, intervalId = None\<rparr>)
   \<and> notices (snd (runCleanUp \<lparr>settings = DEFAULT_SETTINGS, intervalId = None\<rparr> exampleHost)) = []"
proof -
  let ?p = "\<lparr>settings = DEFAULT_SETTINGS, intervalId = None\<rparr>"
  have a: "checkInterval (settings ?p) = 0" by (simp add: DEFAULT_SETTINGS_def)
  have b: "\<not> confirmed (settings ?p)" by (simp add: DEFAULT_SETTINGS_def)
  from a b runCleanUp_zero_unconfirmed_silent [OF a b, of exampleHost] show ?thesis
    by (simp add: exampleHost_def)
qed



section \<open>The scheduler\<close>

text \<open>
  \<^verbatim>\<open>startInterval\<close> registers a timer on every call, with the period
  \<open>checkInterval * 60000\<close>, and keeps its identifier: the call of \<^verbatim>\<open>setInterval\<close> is
  outside the test of \<open>checkInterval\<close>.
\<close>

lemma startInterval_registers:
  "timers (snd (startInterval this h)) = timers h @ [(nextTimer h, checkInterval (settings this) * 60000)]
   \<and> intervalId (fst (startInterval this h)) = Some (nextTimer h)"
  by (simp add: startInterval_def setInterval_def Let_def toMilliSec_def runCleanUp_timers Notice_def)

text \<open>
  C3: \<^verbatim>\<open>startInterval\<close> run on the default settings, whose \<open>checkInterval\<close> is 0, on a
  host with no timer. The notice \<^verbatim>\<open>Auto Temp Cleaner has been stopped.\<close> is shown and the
  immediate sweep does nothing, but a repeating timer with period 0 is registered and
  its identifier stored: sweeps stay scheduled.
\<close>

theorem startInterval_zero_keeps_timer:
  "startInterval \<lparr>settings = DEFAULT_SETTINGS, intervalId = None\<rparr> exampleHost =
     (\<lparr>settings = DEFAULT_SETTINGS, intervalId = Some 0\<rparr>,
      exampleHost\<lparr>notices := [''Auto Temp Cleaner has been stopped.''],
                    timers := [(0, 0)], nextTimer := 1\<rparr>)"
  by (simp add: startInterval_def runCleanUp_def DEFAULT_SETTINGS_def Notice_def setInterval_def
      toMilliSec_def exampleHost_def)

text \<open>Loading on a host with no data file gives the defaults; a partial data file overrides its keys.\<close>

lemma loadSettings_example:
  "settings (loadSettings examplePlugin exampleHost) = DEFAULT_SETTINGS
   \<and> settings (loadSettings examplePlugin
        (exampleHost\<lparr>dataFile := Some \<lparr>savedTargetFolder = None, savedTtlMinites = Some 5,
                                          savedCheckInterval = None, savedConfirmed = Some True\<rparr>\<rparr>))
       = \<lparr>targetFolder = ''tmp'', ttlMinites = 5, checkInterval = 0, confirmed = True\<rparr>"
  by (simp add: loadSettings_def loadData_def Object_assign_def DEFAULT_SETTINGS_def exampleHost_def)

end
